theory Spec2Isabelle
  imports Main
begin

section \<open>Record types of the dashboard (frontend/src/types/index.ts)\<close>

text \<open>
  The TypeScript interfaces become records. Field names are prefixed with the name of
  their interface, because several interfaces share the names \<open>id\<close>, \<open>guest_id\<close>,
  \<open>room_id\<close>, \<open>created_at\<close>, \<open>guest\<close> and \<open>room\<close> (and \<open>id\<close> is a constant of HOL).
  Identifiers are the JSON integers the backend sends, so they are of type \<open>int\<close>;
  optional fields (\<open>phone?\<close>, \<open>guest?\<close>, ...) are options; timestamps stay strings.
\<close>

record Guest =
  guest_id_field :: int
  guest_first_name :: string
  guest_last_name :: string
  guest_email :: string
  guest_phone :: "string option"
  guest_created_at :: string

record Room =
  room_id_field :: int
  room_room_number :: string
  room_room_type :: string
  room_floor :: int
  room_created_at :: string

datatype RequestStatus = Pending | In_Progress | Completed

datatype Sentiment = Positive | Negative | Neutral

record Request =
  request_id :: int
  request_guest_id :: int
  request_room_id :: int
  request_category :: string
  request_description :: string
  request_status :: RequestStatus
  request_created_at :: string
  request_updated_at :: string
  request_guest :: "Guest option"
  request_room :: "Room option"

record Feedback =
  feedback_id :: int
  feedback_guest_id :: int
  feedback_room_id :: int
  feedback_message :: string
  feedback_sentiment :: Sentiment
  feedback_smart_response :: "string option"
  feedback_created_at :: string
  feedback_guest :: "Guest option"
  feedback_room :: "Room option"

section \<open>The store: requestsSlice, feedbackSlice and the root reducer\<close>

text \<open>
  \<open>Array.prototype.findIndex\<close>: the index of the first element that satisfies the
  predicate, \<open>-1\<close> when there is none. The counter is the index of the head of the
  remaining list.
\<close>

fun findIndex_from :: "('a \<Rightarrow> bool) \<Rightarrow> 'a list \<Rightarrow> int \<Rightarrow> int" where
  "findIndex_from p [] i = - 1"
| "findIndex_from p (x # xs) i = (if p x then i else findIndex_from p xs (i + 1))"

definition findIndex :: "('a \<Rightarrow> bool) \<Rightarrow> 'a list \<Rightarrow> int" where
  "findIndex p xs = findIndex_from p xs 0"

record RequestsState =
  requests_items :: "Request list"
  requests_loading :: bool
  requests_error :: "string option"

definition requests_initialState :: RequestsState where
  "requests_initialState =
     \<lparr>requests_items = [], requests_loading = False, requests_error = None\<rparr>"

definition setRequests :: "Request list \<Rightarrow> RequestsState \<Rightarrow> RequestsState" where
  "setRequests payload state = state\<lparr>requests_items := payload, requests_loading := False\<rparr>"

text \<open>\<open>state.items.unshift(action.payload)\<close>: the payload becomes the first element.\<close>

definition addRequest :: "Request \<Rightarrow> RequestsState \<Rightarrow> RequestsState" where
  "addRequest payload state = state\<lparr>requests_items := payload # requests_items state\<rparr>"

definition updateRequest :: "Request \<Rightarrow> RequestsState \<Rightarrow> RequestsState" where
  "updateRequest payload state =
     (let index = findIndex (\<lambda>r. request_id r = request_id payload) (requests_items state)
      in if index \<noteq> - 1
         then state\<lparr>requests_items := (requests_items state)[nat index := payload]\<rparr>
         else state)"

definition requests_setLoading :: "bool \<Rightarrow> RequestsState \<Rightarrow> RequestsState" where
  "requests_setLoading payload state = state\<lparr>requests_loading := payload\<rparr>"

definition requests_setError :: "string option \<Rightarrow> RequestsState \<Rightarrow> RequestsState" where
  "requests_setError payload state = state\<lparr>requests_error := payload\<rparr>"

record FeedbackState =
  feedback_items :: "Feedback list"
  feedback_loading :: bool
  feedback_error :: "string option"

definition feedback_initialState :: FeedbackState where
  "feedback_initialState =
     \<lparr>feedback_items = [], feedback_loading = False, feedback_error = None\<rparr>"

definition setFeedback :: "Feedback list \<Rightarrow> FeedbackState \<Rightarrow> FeedbackState" where
  "setFeedback payload state = state\<lparr>feedback_items := payload, feedback_loading := False\<rparr>"

definition addFeedback :: "Feedback \<Rightarrow> FeedbackState \<Rightarrow> FeedbackState" where
  "addFeedback payload state = state\<lparr>feedback_items := payload # feedback_items state\<rparr>"

definition updateFeedback :: "Feedback \<Rightarrow> FeedbackState \<Rightarrow> FeedbackState" where
  "updateFeedback payload state =
     (let index = findIndex (\<lambda>f. feedback_id f = feedback_id payload) (feedback_items state)
      in if index \<noteq> - 1
         then state\<lparr>feedback_items := (feedback_items state)[nat index := payload]\<rparr>
         else state)"

definition feedback_setLoading :: "bool \<Rightarrow> FeedbackState \<Rightarrow> FeedbackState" where
  "feedback_setLoading payload state = state\<lparr>feedback_loading := payload\<rparr>"

definition feedback_setError :: "string option \<Rightarrow> FeedbackState \<Rightarrow> FeedbackState" where
  "feedback_setError payload state = state\<lparr>feedback_error := payload\<rparr>"

text \<open>
  The root state of \<open>configureStore\<close> with the two slices the real-time client writes
  to. The third slice, \<open>auth\<close>, is not among the sources and reacts to none of the
  actions below, so it is left out. An action is the slice's action creator applied to
  its payload; \<open>dispatch\<close> hands it to the one case reducer whose action type matches.
\<close>

record RootState =
  requests :: RequestsState
  feedback :: FeedbackState

datatype Action =
    SetRequests "Request list"
  | AddRequest Request
  | UpdateRequest Request
  | RequestsSetLoading bool
  | RequestsSetError "string option"
  | SetFeedback "Feedback list"
  | AddFeedback Feedback
  | UpdateFeedback Feedback
  | FeedbackSetLoading bool
  | FeedbackSetError "string option"

definition store_initialState :: RootState where
  "store_initialState =
     \<lparr>requests = requests_initialState, feedback = feedback_initialState\<rparr>"

fun dispatch :: "Action \<Rightarrow> RootState \<Rightarrow> RootState" where
  "dispatch (SetRequests p) st = st\<lparr>requests := setRequests p (requests st)\<rparr>"
| "dispatch (AddRequest p) st = st\<lparr>requests := addRequest p (requests st)\<rparr>"
| "dispatch (UpdateRequest p) st = st\<lparr>requests := updateRequest p (requests st)\<rparr>"
| "dispatch (RequestsSetLoading p) st = st\<lparr>requests := requests_setLoading p (requests st)\<rparr>"
| "dispatch (RequestsSetError p) st = st\<lparr>requests := requests_setError p (requests st)\<rparr>"
| "dispatch (SetFeedback p) st = st\<lparr>feedback := setFeedback p (feedback st)\<rparr>"
| "dispatch (AddFeedback p) st = st\<lparr>feedback := addFeedback p (feedback st)\<rparr>"
| "dispatch (UpdateFeedback p) st = st\<lparr>feedback := updateFeedback p (feedback st)\<rparr>"
| "dispatch (FeedbackSetLoading p) st = st\<lparr>feedback := feedback_setLoading p (feedback st)\<rparr>"
| "dispatch (FeedbackSetError p) st = st\<lparr>feedback := feedback_setError p (feedback st)\<rparr>"

text \<open>
  The uniqueness predicate of the data model: no two records of a collection carry the
  same identifier.
\<close>

definition unique_ids :: "RootState \<Rightarrow> bool" where
  "unique_ids st \<longleftrightarrow>
     distinct (map request_id (requests_items (requests st))) \<and>
     distinct (map feedback_id (feedback_items (feedback st)))"

section \<open>The real-time client: hooks/useWebSocket.ts\<close>

definition MAX_RETRY_ATTEMPTS :: nat where
  "MAX_RETRY_ATTEMPTS = 3"

definition RETRY_DELAY :: nat where
  "RETRY_DELAY = 3000"

definition connection_error_message :: string where
  "connection_error_message =
     ''Unable to establish real-time connection. Please check your internet connection and refresh the page.''"

text \<open>
  What the hook sees of the browser. A socket is known by the order of its construction
  (socket \<open>i\<close> is the \<open>i\<close>-th \<open>new WebSocket\<close>) and has a \<open>readyState\<close>; here \<open>CLOSED\<close>
  is entered when the close event is delivered. A pending timer is a pair of the
  identifier \<open>window.setTimeout\<close> returned (a positive integer) and its delay; its
  callback is always \<open>connect\<close>.
\<close>

datatype ReadyState = CONNECTING | OPEN | CLOSING | CLOSED

text \<open>
  The state of one activation of the effect. The first five fields are the refs and the
  React state of the hook, the next two the \<open>let\<close> variables of the effect closure, then
  the browser's sockets and timers and the Redux store behind \<open>dispatchRef.current\<close>.
  \<open>notices_surfaced\<close> is instrumentation, not a variable of the program: it counts the
  calls \<open>setConnectionError(message)\<close> with a message, that is, how often a notice was
  put on the screen. Console output is not modelled, and neither is the socket's URL,
  which no handler reads.
\<close>

record HookState =
  wsRef :: "nat option"
  reconnectTimeoutRef :: "nat option"
  retryCountRef :: nat
  hasShownErrorRef :: bool
  connectionError :: "string option"
  isConnecting :: bool
  isCleaning :: bool
  sockets :: "ReadyState list"
  timers :: "(nat \<times> nat) list"
  next_timer_id :: nat
  store :: RootState
  notices_surfaced :: nat

definition hook_initialState :: "RootState \<Rightarrow> HookState" where
  "hook_initialState st =
     \<lparr>wsRef = None, reconnectTimeoutRef = None, retryCountRef = 0,
      hasShownErrorRef = False, connectionError = None,
      isConnecting = False, isCleaning = False,
      sockets = [], timers = [], next_timer_id = 1,
      store = st, notices_surfaced = 0\<rparr>"

definition showConnectionError :: "HookState \<Rightarrow> HookState" where
  "showConnectionError s =
     (if \<not> hasShownErrorRef s
      then s\<lparr>hasShownErrorRef := True,
             connectionError := Some connection_error_message,
             notices_surfaced := notices_surfaced s + 1\<rparr>
      else s)"

text \<open>
  \<open>reconnectTimeoutRef.current = window.setTimeout(connect, RETRY_DELAY)\<close> and
  \<open>clearTimeout(id)\<close>.
\<close>

definition setTimeout_connect :: "HookState \<Rightarrow> HookState" where
  "setTimeout_connect s =
     s\<lparr>timers := timers s @ [(next_timer_id s, RETRY_DELAY)],
       reconnectTimeoutRef := Some (next_timer_id s),
       next_timer_id := next_timer_id s + 1\<rparr>"

definition clearTimeout :: "nat \<Rightarrow> HookState \<Rightarrow> HookState" where
  "clearTimeout t s = s\<lparr>timers := filter (\<lambda>(i, d). i \<noteq> t) (timers s)\<rparr>"

text \<open>
  \<open>connect\<close>. Whether \<open>new WebSocket(url)\<close> throws (it does on a URL it cannot parse)
  is the browser's choice, passed as \<open>ctor_throws\<close>; the \<open>catch\<close> block is the branch
  taken then. Nothing else in the \<open>try\<close> block can throw.
\<close>

definition connect :: "bool \<Rightarrow> HookState \<Rightarrow> HookState" where
  "connect ctor_throws s =
     (if isConnecting s then s
      else
        let s1 = s\<lparr>isConnecting := True\<rparr> in
        if retryCountRef s1 \<ge> MAX_RETRY_ATTEMPTS then showConnectionError s1
        else if ctor_throws then
          (let s2 = s1\<lparr>isConnecting := False, retryCountRef := retryCountRef s1 + 1\<rparr> in
           if retryCountRef s2 < MAX_RETRY_ATTEMPTS \<and> \<not> isCleaning s2
           then setTimeout_connect s2
           else showConnectionError s2)
        else s1\<lparr>sockets := sockets s1 @ [CONNECTING], wsRef := Some (length (sockets s1))\<rparr>)"

definition onopen :: "HookState \<Rightarrow> HookState" where
  "onopen s =
     s\<lparr>isConnecting := False, retryCountRef := 0, hasShownErrorRef := False,
       connectionError := None\<rparr>"

text \<open>
  \<open>ws.onmessage\<close>. \<open>JSON.parse\<close> and the unchecked casts \<open>message.data as Request\<close> and
  \<open>message.data as Feedback\<close> belong to the language, not to the repository, and are
  parameters: \<open>JSON_parse\<close> returns the \<open>type\<close> and \<open>data\<close> of the parsed frame, or the
  exception thrown (\<open>SyntaxError\<close> for text that is not JSON, \<open>TypeError\<close> for the JSON
  text \<open>null\<close>, whose \<open>type\<close> cannot be read). \<open>onmessage_try\<close> is the body of the \<open>try\<close>
  block, \<open>onmessage\<close> the handler with its \<open>catch\<close>, which only logs.
\<close>

datatype js_error = SyntaxError | TypeError

record 'd WsMessage =
  message_type :: string
  message_data :: 'd

record 'd Runtime =
  JSON_parse :: "string \<Rightarrow> js_error + 'd WsMessage"
  as_Request :: "'d \<Rightarrow> Request"
  as_Feedback :: "'d \<Rightarrow> Feedback"

definition onmessage_try :: "'d Runtime \<Rightarrow> string \<Rightarrow> RootState \<Rightarrow> js_error + RootState" where
  "onmessage_try rt event_data st =
     (case JSON_parse rt event_data of
        Inl error \<Rightarrow> Inl error
      | Inr message \<Rightarrow>
          Inr (if message_type message = ''new_request''
                 then dispatch (AddRequest (as_Request rt (message_data message))) st
               else if message_type message = ''request_updated''
                 then dispatch (UpdateRequest (as_Request rt (message_data message))) st
               else if message_type message = ''new_feedback''
                 then dispatch (AddFeedback (as_Feedback rt (message_data message))) st
               else if message_type message = ''feedback_updated''
                 then dispatch (UpdateFeedback (as_Feedback rt (message_data message))) st
               else st))"

definition onmessage :: "'d Runtime \<Rightarrow> string \<Rightarrow> HookState \<Rightarrow> HookState" where
  "onmessage rt event_data s =
     (case onmessage_try rt event_data (store s) of
        Inr st \<Rightarrow> s\<lparr>store := st\<rparr>
      | Inl error \<Rightarrow> s)"

definition onerror :: "HookState \<Rightarrow> HookState" where
  "onerror s = s\<lparr>isConnecting := False, retryCountRef := retryCountRef s + 1\<rparr>"

definition onclose :: "HookState \<Rightarrow> HookState" where
  "onclose s =
     (let s1 = s\<lparr>isConnecting := False\<rparr> in
      if isCleaning s1 then s1
      else
        let s2 = s1\<lparr>retryCountRef := retryCountRef s1 + 1\<rparr> in
        if retryCountRef s2 < MAX_RETRY_ATTEMPTS
        then setTimeout_connect s2
        else showConnectionError s2)"

text \<open>
  The cleanup function the effect returns. \<open>if (reconnectTimeoutRef.current)\<close> is false
  for \<open>null\<close> and for \<open>0\<close>; \<open>wsRef.current.close()\<close> on an open socket moves it to
  \<open>CLOSING\<close>, and its close event comes later.
\<close>

definition cleanup :: "HookState \<Rightarrow> HookState" where
  "cleanup s =
     (let s1 = s\<lparr>isCleaning := True\<rparr>;
          s2 = (case reconnectTimeoutRef s1 of
                  Some t \<Rightarrow> if t \<noteq> 0 then clearTimeout t s1 else s1
                | None \<Rightarrow> s1)
      in case wsRef s2 of
           Some i \<Rightarrow>
             if i < length (sockets s2) \<and> sockets s2 ! i = OPEN
             then s2\<lparr>sockets := (sockets s2)[i := CLOSING]\<rparr>
             else s2
         | None \<Rightarrow> s2)"

definition clearError :: "HookState \<Rightarrow> HookState" where
  "clearError s = s\<lparr>connectionError := None\<rparr>"

text \<open>
  The body of the effect for a token: nothing for \<open>null\<close> or the empty string,
  otherwise fresh closure variables and the first call of \<open>connect\<close>. The two
  variables are those of this run of the effect alone: the state the body is given is
  the view of a new run, and a state in which an earlier run has left sockets or timers
  goes through \<open>run_effect\<close> below, which keeps the earlier run's variables apart.
\<close>

definition useWebSocket_effect :: "string option \<Rightarrow> bool \<Rightarrow> HookState \<Rightarrow> HookState" where
  "useWebSocket_effect token ctor_throws s =
     (if token = None \<or> token = Some [] then s
      else connect ctor_throws (s\<lparr>isConnecting := False, isCleaning := False\<rparr>))"

subsection \<open>Events\<close>

text \<open>
  After the effect has run, the hook only reacts: to the transport events of a socket it
  constructed, to a pending timer firing (which calls \<open>connect\<close>; the flag says whether
  the constructor throws in that call), to the cleanup of the effect and to the user
  dismissing the notice. An event that cannot happen in the
  current state (a socket that does not exist or has closed, an open on a socket that is
  not connecting, a message on a socket that is not open, a timer that is not pending)
  leaves the state as it is, so every list of events is a possible history.
\<close>

datatype Event =
    TransportOpen nat
  | TransportMessage nat string
  | TransportError nat
  | TransportClose nat
  | TimerFired nat bool
  | Cleanup
  | Dismiss

fun step :: "'d Runtime \<Rightarrow> Event \<Rightarrow> HookState \<Rightarrow> HookState" where
  "step rt (TransportOpen i) s =
     (if i < length (sockets s) \<and> sockets s ! i = CONNECTING
      then onopen (s\<lparr>sockets := (sockets s)[i := OPEN]\<rparr>) else s)"
| "step rt (TransportMessage i event_data) s =
     (if i < length (sockets s) \<and> sockets s ! i = OPEN
      then onmessage rt event_data s else s)"
| "step rt (TransportError i) s =
     (if i < length (sockets s) \<and> sockets s ! i \<noteq> CLOSED
      then onerror s else s)"
| "step rt (TransportClose i) s =
     (if i < length (sockets s) \<and> sockets s ! i \<noteq> CLOSED
      then onclose (s\<lparr>sockets := (sockets s)[i := CLOSED]\<rparr>) else s)"
| "step rt (TimerFired t ctor_throws) s =
     (if t \<in> fst ` set (timers s)
      then connect ctor_throws (s\<lparr>timers := filter (\<lambda>(i, d). i \<noteq> t) (timers s)\<rparr>)
      else s)"
| "step rt Cleanup s = cleanup s"
| "step rt Dismiss s = clearError s"

definition run :: "'d Runtime \<Rightarrow> Event list \<Rightarrow> HookState \<Rightarrow> HookState" where
  "run rt es s = fold (step rt) es s"

text \<open>
  The state right after a first mount with a token, over a given store. Until the
  effect runs again there is one run of the effect, and \<open>run\<close> from this state is the
  history of the hook.
\<close>

definition mounted :: "string \<Rightarrow> bool \<Rightarrow> RootState \<Rightarrow> HookState" where
  "mounted token ctor_throws st =
     useWebSocket_effect (Some token) ctor_throws (hook_initialState st)"

fun is_open_event :: "Event \<Rightarrow> bool" where
  "is_open_event (TransportOpen i) = True"
| "is_open_event e = False"

text \<open>Sockets whose close event is still to come, and sockets still connecting.\<close>

definition live_sockets :: "HookState \<Rightarrow> nat" where
  "live_sockets s = length (filter (\<lambda>r. r \<noteq> CLOSED) (sockets s))"

definition connecting_sockets :: "HookState \<Rightarrow> nat" where
  "connecting_sockets s = length (filter (\<lambda>r. r = CONNECTING) (sockets s))"

subsection \<open>Runs of the effect\<close>

text \<open>
  The effect depends on \<open>[token]\<close>. When the token changes, React calls the cleanup
  function the previous run of the effect returned, if it returned one, and then runs
  the body again; on unmount it calls the cleanup function only. Every run of the body
  has its own \<open>let isConnecting\<close> and \<open>let isCleaning\<close>, and the handlers of a socket
  and the callback of a timer keep the variables of the run that created them, while
  the refs, the React state, the browser and the store are shared by all runs.

  So the component is the shared state together with one pair of closure variables
  (\<open>isConnecting\<close>, \<open>isCleaning\<close>) per run, the run that owns each socket and each
  timer, and the run whose cleanup function React holds. \<open>in_closure a f\<close> executes the
  code \<open>f\<close> with the variables of run \<open>a\<close>: it puts them in the two fields of the
  shared state, runs \<open>f\<close>, stores them back and gives what \<open>f\<close> constructed to run
  \<open>a\<close>. Between two calls those two fields of \<open>hook\<close> hold the variables of the run
  that executed last; the variables of each run are in \<open>closures\<close>.
\<close>

record Component =
  hook :: HookState
  closures :: "(bool \<times> bool) list"
  socket_owner :: "nat list"
  timer_owner :: "(nat \<times> nat) list"
  registered_cleanup :: "nat option"

definition component_initialState :: "RootState \<Rightarrow> Component" where
  "component_initialState st =
     \<lparr>hook = hook_initialState st, closures = [], socket_owner = [], timer_owner = [],
      registered_cleanup = None\<rparr>"

definition in_closure :: "nat \<Rightarrow> (HookState \<Rightarrow> HookState) \<Rightarrow> Component \<Rightarrow> Component" where
  "in_closure a f c =
     (let s = (hook c)\<lparr>isConnecting := fst (closures c ! a),
                       isCleaning := snd (closures c ! a)\<rparr>;
          s' = f s
      in c\<lparr>hook := s',
           closures := (closures c)[a := (isConnecting s', isCleaning s')],
           socket_owner :=
             socket_owner c @ replicate (length (sockets s') - length (sockets s)) a,
           timer_owner :=
             timer_owner c @
             map (\<lambda>(t, d). (t, a)) (filter (\<lambda>(t, d). next_timer_id s \<le> t) (timers s'))\<rparr>)"

definition run_cleanup :: "Component \<Rightarrow> Component" where
  "run_cleanup c =
     (case registered_cleanup c of
        Some a \<Rightarrow> (in_closure a cleanup c)\<lparr>registered_cleanup := None\<rparr>
      | None \<Rightarrow> c)"

text \<open>
  A run of the body: new closure variables, and a cleanup function to register unless
  the body returned at \<open>if (!token) return\<close>.
\<close>

definition run_effect :: "string option \<Rightarrow> bool \<Rightarrow> Component \<Rightarrow> Component" where
  "run_effect token ctor_throws c =
     (let a = length (closures c);
          c1 = c\<lparr>closures := closures c @ [(False, False)],
                 registered_cleanup :=
                   (if token = None \<or> token = Some [] then None else Some a)\<rparr>
      in in_closure a (useWebSocket_effect token ctor_throws) c1)"

text \<open>
  What happens to the component: the effect runs, for the first mount or for a changed
  token, or one of the events above happens, where \<open>Cleanup\<close> is now the unmount. A
  transport event goes to the handlers of the run that constructed the socket, a timer
  to the \<open>connect\<close> of the run that set it.
\<close>

datatype ComponentEvent = Happens Event | EffectRuns "string option" bool

fun component_step :: "'d Runtime \<Rightarrow> ComponentEvent \<Rightarrow> Component \<Rightarrow> Component" where
  "component_step rt (EffectRuns token ctor_throws) c =
     run_effect token ctor_throws (run_cleanup c)"
| "component_step rt (Happens Cleanup) c = run_cleanup c"
| "component_step rt (Happens Dismiss) c = c\<lparr>hook := clearError (hook c)\<rparr>"
| "component_step rt (Happens (TimerFired t ctor_throws)) c =
     (case map_of (timer_owner c) t of
        Some a \<Rightarrow> in_closure a (step rt (TimerFired t ctor_throws)) c
      | None \<Rightarrow> c)"
| "component_step rt (Happens (TransportOpen i)) c =
     (if i < length (socket_owner c)
      then in_closure (socket_owner c ! i) (step rt (TransportOpen i)) c else c)"
| "component_step rt (Happens (TransportMessage i event_data)) c =
     (if i < length (socket_owner c)
      then in_closure (socket_owner c ! i) (step rt (TransportMessage i event_data)) c
      else c)"
| "component_step rt (Happens (TransportError i)) c =
     (if i < length (socket_owner c)
      then in_closure (socket_owner c ! i) (step rt (TransportError i)) c else c)"
| "component_step rt (Happens (TransportClose i)) c =
     (if i < length (socket_owner c)
      then in_closure (socket_owner c ! i) (step rt (TransportClose i)) c else c)"

definition component_run ::
  "'d Runtime \<Rightarrow> ComponentEvent list \<Rightarrow> Component \<Rightarrow> Component" where
  "component_run rt es c = fold (component_step rt) es c"

subsection \<open>Invariants of the histories\<close>

text \<open>
  At most one thing is outstanding at a time, a socket that has not closed or a pending
  timer; a pending timer is the one \<open>reconnectTimeoutRef\<close> holds; and once the effect
  is cleaning up, no timer is pending.
\<close>

definition timers_inv :: "HookState \<Rightarrow> bool" where
  "timers_inv s \<longleftrightarrow>
     live_sockets s + length (timers s) \<le> 1 \<and>
     (\<forall>(t, d) \<in> set (timers s). reconnectTimeoutRef s = Some t \<and> t \<noteq> 0) \<and>
     next_timer_id s \<noteq> 0 \<and>
     (isCleaning s \<longrightarrow> timers s = [])"

text \<open>
  While no socket has opened, every socket constructed is either still live or has been
  counted by \<open>retryCountRef\<close>, and a notice has been surfaced exactly if
  \<open>hasShownErrorRef\<close> is set.
\<close>

definition retry_inv :: "HookState \<Rightarrow> bool" where
  "retry_inv s \<longleftrightarrow>
     length (sockets s) \<le> MAX_RETRY_ATTEMPTS \<and>
     (\<not> isCleaning s \<longrightarrow> length (sockets s) \<le> retryCountRef s + live_sockets s) \<and>
     notices_surfaced s = (if hasShownErrorRef s then 1 else 0)"

section \<open>Sample data for the closed instances\<close>

definition sample_request :: "int \<Rightarrow> string \<Rightarrow> Request" where
  "sample_request n d =
     \<lparr>request_id = n, request_guest_id = 1, request_room_id = 1,
      request_category = ''Housekeeping'', request_description = d,
      request_status = Pending, request_created_at = ''2025-01-01T00:00:00'',
      request_updated_at = ''2025-01-01T00:00:00'',
      request_guest = None, request_room = None\<rparr>"

definition sample_feedback :: "int \<Rightarrow> string \<Rightarrow> Feedback" where
  "sample_feedback n m =
     \<lparr>feedback_id = n, feedback_guest_id = 1, feedback_room_id = 1,
      feedback_message = m, feedback_sentiment = Neutral,
      feedback_smart_response = None, feedback_created_at = ''2025-01-01T00:00:00'',
      feedback_guest = None, feedback_room = None\<rparr>"

text \<open>
  A runtime for the closed instances. Its \<open>JSON_parse\<close> knows the JSON texts \<open>null\<close> and
  \<open>{}\<close> (an object without a \<open>type\<close>, rendered as the empty type string) and throws
  \<open>SyntaxError\<close> on any other text; the instances hand it only text that is not JSON.
\<close>

definition sample_runtime :: "int Runtime" where
  "sample_runtime =
     \<lparr>JSON_parse = (\<lambda>text.
        if text = ''null'' then Inl TypeError
        else if text = ''{}'' then Inr \<lparr>message_type = [], message_data = 0\<rparr>
        else Inl SyntaxError),
      as_Request = (\<lambda>n. sample_request n []),
      as_Feedback = (\<lambda>n. sample_feedback n [])\<rparr>"

text \<open>
  Three attempts that each end with a close event, with the retry timers in between,
  and two attempts that each end with an error event followed by a close event.
\<close>

definition three_closes :: "Event list" where
  "three_closes =
     [TransportClose 0, TimerFired 1 False, TransportClose 1, TimerFired 2 False,
      TransportClose 2]"

definition two_failures :: "Event list" where
  "two_failures =
     [TransportError 0, TransportClose 0, TimerFired 1 False,
      TransportError 1, TransportClose 1]"

section \<open>Facts about findIndex\<close>

lemma findIndex_from_none:
  "\<forall>x \<in> set xs. \<not> p x \<Longrightarrow> findIndex_from p xs i = - 1"
  by (induction xs arbitrary: i) auto

lemma findIndex_from_first:
  "\<forall>x \<in> set xs. \<not> p x \<Longrightarrow> p y \<Longrightarrow> findIndex_from p (xs @ y # ys) i = i + int (length xs)"
  by (induction xs arbitrary: i) auto

lemma findIndex_none: "\<forall>x \<in> set xs. \<not> p x \<Longrightarrow> findIndex p xs = - 1"
  by (simp add: findIndex_def findIndex_from_none)

lemma findIndex_first:
  "\<forall>x \<in> set xs. \<not> p x \<Longrightarrow> p y \<Longrightarrow> findIndex p (xs @ y # ys) = int (length xs)"
  by (simp add: findIndex_def findIndex_from_first)

lemma first_match_split:
  "\<exists>x \<in> set zs. p x \<Longrightarrow> \<exists>xs y ys. zs = xs @ y # ys \<and> (\<forall>x \<in> set xs. \<not> p x) \<and> p y"
  using split_list_first_prop [of zs p] by blast


section \<open>The update reducers find the first match\<close>

lemma updateRequest_absent:
  "\<forall>r \<in> set (requests_items st). request_id r \<noteq> request_id p \<Longrightarrow> updateRequest p st = st"
  by (simp add: updateRequest_def findIndex_none)

lemma updateRequest_first:
  "requests_items st = xs @ r # ys \<Longrightarrow> \<forall>x \<in> set xs. request_id x \<noteq> request_id p \<Longrightarrow>
   request_id r = request_id p \<Longrightarrow>
   updateRequest p st = st\<lparr>requests_items := xs @ p # ys\<rparr>"
  by (simp add: updateRequest_def findIndex_first)

lemma updateFeedback_absent:
  "\<forall>r \<in> set (feedback_items st). feedback_id r \<noteq> feedback_id p \<Longrightarrow> updateFeedback p st = st"
  by (simp add: updateFeedback_def findIndex_none)

lemma updateFeedback_first:
  "feedback_items st = xs @ r # ys \<Longrightarrow> \<forall>x \<in> set xs. feedback_id x \<noteq> feedback_id p \<Longrightarrow>
   feedback_id r = feedback_id p \<Longrightarrow>
   updateFeedback p st = st\<lparr>feedback_items := xs @ p # ys\<rparr>"
  by (simp add: updateFeedback_def findIndex_first)

lemma updateRequest_ids:
  "map request_id (requests_items (updateRequest p st)) = map request_id (requests_items st)"
proof (cases "\<exists>r \<in> set (requests_items st). request_id r = request_id p")
  case True
  then obtain xs r ys where "requests_items st = xs @ r # ys"
    "\<forall>x \<in> set xs. request_id x \<noteq> request_id p" "request_id r = request_id p"
    using first_match_split [of "requests_items st" "\<lambda>r. request_id r = request_id p"] by blast
  then show ?thesis by (simp add: updateRequest_first)
next
  case False
  then show ?thesis by (simp add: updateRequest_absent)
qed

lemma updateFeedback_ids:
  "map feedback_id (feedback_items (updateFeedback p st)) = map feedback_id (feedback_items st)"
proof (cases "\<exists>r \<in> set (feedback_items st). feedback_id r = feedback_id p")
  case True
  then obtain xs r ys where "feedback_items st = xs @ r # ys"
    "\<forall>x \<in> set xs. feedback_id x \<noteq> feedback_id p" "feedback_id r = feedback_id p"
    using first_match_split [of "feedback_items st" "\<lambda>r. feedback_id r = feedback_id p"] by blast
  then show ?thesis by (simp add: updateFeedback_first)
next
  case False
  then show ?thesis by (simp add: updateFeedback_absent)
qed

lemma updateRequest_in_place:
  assumes "\<exists>r \<in> set (requests_items st). request_id r = request_id p"
  shows "\<exists>i < length (requests_items st).
           request_id (requests_items st ! i) = request_id p \<and>
           (\<forall>j < i. request_id (requests_items st ! j) \<noteq> request_id p) \<and>
           updateRequest p st = st\<lparr>requests_items := (requests_items st)[i := p]\<rparr>"
proof -
  from assms obtain xs r ys where split: "requests_items st = xs @ r # ys"
    "\<forall>x \<in> set xs. request_id x \<noteq> request_id p" "request_id r = request_id p"
    using first_match_split [of "requests_items st" "\<lambda>r. request_id r = request_id p"] by blast
  have "length xs < length (requests_items st)" using split by simp
  moreover have "request_id (requests_items st ! length xs) = request_id p" using split by simp
  moreover have "\<forall>j < length xs. request_id (requests_items st ! j) \<noteq> request_id p"
    using split by (simp add: nth_append)
  moreover have "updateRequest p st = st\<lparr>requests_items := (requests_items st)[length xs := p]\<rparr>"
    using split by (simp add: updateRequest_first)
  ultimately show ?thesis by blast
qed

lemma updateFeedback_in_place:
  assumes "\<exists>r \<in> set (feedback_items st). feedback_id r = feedback_id p"
  shows "\<exists>i < length (feedback_items st).
           feedback_id (feedback_items st ! i) = feedback_id p \<and>
           (\<forall>j < i. feedback_id (feedback_items st ! j) \<noteq> feedback_id p) \<and>
           updateFeedback p st = st\<lparr>feedback_items := (feedback_items st)[i := p]\<rparr>"
proof -
  from assms obtain xs r ys where split: "feedback_items st = xs @ r # ys"
    "\<forall>x \<in> set xs. feedback_id x \<noteq> feedback_id p" "feedback_id r = feedback_id p"
    using first_match_split [of "feedback_items st" "\<lambda>r. feedback_id r = feedback_id p"] by blast
  have "length xs < length (feedback_items st)" using split by simp
  moreover have "feedback_id (feedback_items st ! length xs) = feedback_id p" using split by simp
  moreover have "\<forall>j < length xs. feedback_id (feedback_items st ! j) \<noteq> feedback_id p"
    using split by (simp add: nth_append)
  moreover have "updateFeedback p st = st\<lparr>feedback_items := (feedback_items st)[length xs := p]\<rparr>"
    using split by (simp add: updateFeedback_first)
  ultimately show ?thesis by blast
qed

section \<open>Claims about the store\<close>

text \<open>
  C4, as stated: every store operation preserves the uniqueness of identifiers in both
  collections. It fails for insert: \<open>addRequest\<close> puts the payload in front without
  looking for its identifier, so dispatching the same new request twice to the empty
  store leaves two records with identifier 7.
\<close>

theorem insert_breaks_unique_ids:
  "unique_ids (dispatch (AddRequest (sample_request 7 ''towels'')) store_initialState) \<and>
   \<not> unique_ids (dispatch (AddRequest (sample_request 7 ''towels''))
                   (dispatch (AddRequest (sample_request 7 ''towels'')) store_initialState))"
  by (simp add: unique_ids_def store_initialState_def requests_initialState_def
      feedback_initialState_def addRequest_def sample_request_def)

text \<open>
  C4, amended: on a store with unique identifiers, the upsert of an updated record
  always keeps them unique; the insert of a new record keeps them unique exactly when
  its identifier is not yet in the collection; and a snapshot set keeps them unique
  exactly when the snapshot has no identifier twice.
\<close>

theorem unique_ids_preserved:
  assumes "unique_ids st"
  shows "unique_ids (dispatch (UpdateRequest p) st) \<and>
         unique_ids (dispatch (UpdateFeedback q) st) \<and>
         (unique_ids (dispatch (AddRequest p) st) \<longleftrightarrow>
            request_id p \<notin> request_id ` set (requests_items (requests st))) \<and>
         (unique_ids (dispatch (AddFeedback q) st) \<longleftrightarrow>
            feedback_id q \<notin> feedback_id ` set (feedback_items (feedback st))) \<and>
         (unique_ids (dispatch (SetRequests ps) st) \<longleftrightarrow> distinct (map request_id ps)) \<and>
         (unique_ids (dispatch (SetFeedback qs) st) \<longleftrightarrow> distinct (map feedback_id qs))"
  using assms
  by (simp add: unique_ids_def updateRequest_ids updateFeedback_ids addRequest_def
      addFeedback_def setRequests_def setFeedback_def)

theorem unique_ids_preserved_witness:
  "unique_ids (dispatch (AddRequest (sample_request 7 ''towels'')) store_initialState) \<and>
   unique_ids (dispatch (UpdateRequest (sample_request 7 ''pillows''))
                (dispatch (AddRequest (sample_request 7 ''towels'')) store_initialState)) \<and>
   unique_ids (dispatch (AddRequest (sample_request 8 ''pillows''))
                (dispatch (AddRequest (sample_request 7 ''towels'')) store_initialState))"
proof -
  let ?st = "dispatch (AddRequest (sample_request 7 ''towels'')) store_initialState"
  have u: "unique_ids ?st"
    by (simp add: unique_ids_def store_initialState_def requests_initialState_def
        feedback_initialState_def addRequest_def)
  have fresh: "request_id (sample_request 8 ''pillows'')
      \<notin> request_id ` set (requests_items (requests ?st))"
    by (simp add: store_initialState_def requests_initialState_def addRequest_def
        sample_request_def)
  from unique_ids_preserved [OF u, of "sample_request 7 ''pillows''"]
  have "unique_ids (dispatch (UpdateRequest (sample_request 7 ''pillows'')) ?st)" by blast
  moreover from unique_ids_preserved [OF u, of "sample_request 8 ''pillows''"] fresh
  have "unique_ids (dispatch (AddRequest (sample_request 8 ''pillows'')) ?st)" by blast
  ultimately show ?thesis using u by blast
qed

text \<open>
  C5: an updated envelope whose identifier is in the collection replaces the first
  record with that identifier by the payload, at the same index: the new collection is
  the old one with that one position overwritten, so the length and every other
  position stay, and so does the rest of the store. An updated envelope whose
  identifier is not in the collection leaves the whole store as it was.
\<close>

theorem updated_replaces_in_place_or_noop:
  "(if \<exists>r \<in> set (requests_items (requests st)). request_id r = request_id p
    then \<exists>i < length (requests_items (requests st)).
           request_id (requests_items (requests st) ! i) = request_id p \<and>
           (\<forall>j < i. request_id (requests_items (requests st) ! j) \<noteq> request_id p) \<and>
           dispatch (UpdateRequest p) st =
             st\<lparr>requests := (requests st)\<lparr>requests_items :=
                   (requests_items (requests st))[i := p]\<rparr>\<rparr>
    else dispatch (UpdateRequest p) st = st) \<and>
   (if \<exists>f \<in> set (feedback_items (feedback st)). feedback_id f = feedback_id q
    then \<exists>i < length (feedback_items (feedback st)).
           feedback_id (feedback_items (feedback st) ! i) = feedback_id q \<and>
           (\<forall>j < i. feedback_id (feedback_items (feedback st) ! j) \<noteq> feedback_id q) \<and>
           dispatch (UpdateFeedback q) st =
             st\<lparr>feedback := (feedback st)\<lparr>feedback_items :=
                   (feedback_items (feedback st))[i := q]\<rparr>\<rparr>
    else dispatch (UpdateFeedback q) st = st)"
proof (intro conjI)
  show "if \<exists>r \<in> set (requests_items (requests st)). request_id r = request_id p
    then \<exists>i < length (requests_items (requests st)).
           request_id (requests_items (requests st) ! i) = request_id p \<and>
           (\<forall>j < i. request_id (requests_items (requests st) ! j) \<noteq> request_id p) \<and>
           dispatch (UpdateRequest p) st =
             st\<lparr>requests := (requests st)\<lparr>requests_items :=
                   (requests_items (requests st))[i := p]\<rparr>\<rparr>
    else dispatch (UpdateRequest p) st = st"
  proof (cases "\<exists>r \<in> set (requests_items (requests st)). request_id r = request_id p")
    case True
    from updateRequest_in_place [OF True] True show ?thesis by auto
  next
    case False
    then show ?thesis by (simp add: updateRequest_absent)
  qed
  show "if \<exists>f \<in> set (feedback_items (feedback st)). feedback_id f = feedback_id q
    then \<exists>i < length (feedback_items (feedback st)).
           feedback_id (feedback_items (feedback st) ! i) = feedback_id q \<and>
           (\<forall>j < i. feedback_id (feedback_items (feedback st) ! j) \<noteq> feedback_id q) \<and>
           dispatch (UpdateFeedback q) st =
             st\<lparr>feedback := (feedback st)\<lparr>feedback_items :=
                   (feedback_items (feedback st))[i := q]\<rparr>\<rparr>
    else dispatch (UpdateFeedback q) st = st"
  proof (cases "\<exists>f \<in> set (feedback_items (feedback st)). feedback_id f = feedback_id q")
    case True
    from updateFeedback_in_place [OF True] True show ?thesis by auto
  next
    case False
    then show ?thesis by (simp add: updateFeedback_absent)
  qed
qed

theorem updated_replaces_in_place_or_noop_witness:
  "(\<exists>r \<in> set (requests_items (requests (dispatch (SetRequests
        [sample_request 5 ''taxi'', sample_request 7 ''towels'']) store_initialState))).
      request_id r = request_id (sample_request 7 ''pillows'')) \<and>
   length (requests_items (requests (dispatch (UpdateRequest (sample_request 7 ''pillows''))
     (dispatch (SetRequests [sample_request 5 ''taxi'', sample_request 7 ''towels''])
        store_initialState)))) = 2 \<and>
   dispatch (UpdateFeedback (sample_feedback 3 ''noisy''))
     (dispatch (SetRequests [sample_request 5 ''taxi'', sample_request 7 ''towels''])
        store_initialState)
     = dispatch (SetRequests [sample_request 5 ''taxi'', sample_request 7 ''towels''])
         store_initialState"
proof -
  let ?st = "dispatch (SetRequests [sample_request 5 ''taxi'', sample_request 7 ''towels''])
     store_initialState"
  let ?p = "sample_request 7 ''pillows''"
  let ?q = "sample_feedback 3 ''noisy''"
  have items: "requests_items (requests ?st) = [sample_request 5 ''taxi'', sample_request 7 ''towels'']"
    by (simp add: store_initialState_def requests_initialState_def setRequests_def)
  have present: "\<exists>r \<in> set (requests_items (requests ?st)). request_id r = request_id ?p"
    by (subst items) (simp add: sample_request_def)
  have absent: "\<not> (\<exists>f \<in> set (feedback_items (feedback ?st)). feedback_id f = feedback_id ?q)"
    by (simp add: store_initialState_def feedback_initialState_def)
  from updated_replaces_in_place_or_noop [of ?st ?p ?q] present absent
  obtain i where
    "dispatch (UpdateRequest ?p) ?st =
       ?st\<lparr>requests := (requests ?st)\<lparr>requests_items := (requests_items (requests ?st))[i := ?p]\<rparr>\<rparr>"
    and noop: "dispatch (UpdateFeedback ?q) ?st = ?st"
    by (auto simp only: if_True if_False)
  then have "length (requests_items (requests (dispatch (UpdateRequest ?p) ?st))) =
      length (requests_items (requests ?st))"
    by simp
  then have "length (requests_items (requests (dispatch (UpdateRequest ?p) ?st))) = 2"
    by (simp only: items) simp
  with present noop show ?thesis by blast
qed

text \<open>
  C6: a new envelope, for a request or for feedback, always puts the payload in front
  of its collection, whatever identifiers the collection already holds; the collection
  grows by one and nothing else in the store changes.
\<close>

theorem new_inserts_at_front:
  "dispatch (AddRequest p) st =
     st\<lparr>requests := (requests st)\<lparr>requests_items := p # requests_items (requests st)\<rparr>\<rparr> \<and>
   length (requests_items (requests (dispatch (AddRequest p) st))) =
     length (requests_items (requests st)) + 1 \<and>
   dispatch (AddFeedback q) st =
     st\<lparr>feedback := (feedback st)\<lparr>feedback_items := q # feedback_items (feedback st)\<rparr>\<rparr> \<and>
   length (feedback_items (feedback (dispatch (AddFeedback q) st))) =
     length (feedback_items (feedback st)) + 1"
  by (simp add: addRequest_def addFeedback_def)

theorem new_inserts_at_front_witness:
  "requests_items (requests (dispatch (AddRequest (sample_request 7 ''pillows''))
     (dispatch (SetRequests [sample_request 7 ''towels'']) store_initialState)))
   = [sample_request 7 ''pillows'', sample_request 7 ''towels'']"
  using new_inserts_at_front [of "sample_request 7 ''pillows''"
      "dispatch (SetRequests [sample_request 7 ''towels'']) store_initialState"]
  by (simp add: store_initialState_def requests_initialState_def setRequests_def)

text \<open>
  C10: when the first record with the payload's identifier sits behind records with
  other identifiers, an updated envelope replaces that record and nothing else;
  whatever follows it, records with the same identifier included, stays as it was.
\<close>

theorem update_replaces_first_match_only:
  "(requests_items (requests st) = xs @ r # ys \<and>
    (\<forall>x \<in> set xs. request_id x \<noteq> request_id p) \<and> request_id r = request_id p
    \<longrightarrow> requests_items (requests (dispatch (UpdateRequest p) st)) = xs @ p # ys) \<and>
   (feedback_items (feedback st) = us @ f # vs \<and>
    (\<forall>x \<in> set us. feedback_id x \<noteq> feedback_id q) \<and> feedback_id f = feedback_id q
    \<longrightarrow> feedback_items (feedback (dispatch (UpdateFeedback q) st)) = us @ q # vs)"
  by (simp add: updateRequest_first updateFeedback_first)

theorem update_replaces_first_match_only_witness:
  "requests_items (requests (dispatch (UpdateRequest (sample_request 7 ''pillows''))
     (dispatch (SetRequests [sample_request 5 ''taxi'', sample_request 7 ''towels'',
        sample_request 7 ''towels again'']) store_initialState)))
   = [sample_request 5 ''taxi'', sample_request 7 ''pillows'', sample_request 7 ''towels again'']"
proof -
  let ?st = "dispatch (SetRequests [sample_request 5 ''taxi'', sample_request 7 ''towels'',
        sample_request 7 ''towels again'']) store_initialState"
  have items: "requests_items (requests ?st) =
      [sample_request 5 ''taxi''] @ sample_request 7 ''towels'' # [sample_request 7 ''towels again'']"
    by (simp add: store_initialState_def requests_initialState_def setRequests_def)
  have ids: "\<forall>x \<in> set [sample_request 5 ''taxi'']. request_id x \<noteq> request_id (sample_request 7 ''pillows'')"
    "request_id (sample_request 7 ''towels'') = request_id (sample_request 7 ''pillows'')"
    by (simp_all add: sample_request_def)
  from update_replaces_first_match_only [of ?st "[sample_request 5 ''taxi'']"
      "sample_request 7 ''towels''" "[sample_request 7 ''towels again'']" "sample_request 7 ''pillows''"]
    items ids
  show ?thesis by simp
qed

section \<open>Invariants of the real-time client\<close>

subsection \<open>One socket or one timer\<close>

lemma filter_length_update:
  "i < length xs \<Longrightarrow>
   length (filter P (xs[i := y])) + (if P (xs ! i) then 1 else 0) =
   length (filter P xs) + (if P y then 1 else 0)"
proof (induction xs arbitrary: i)
  case Nil
  then show ?case by simp
next
  case (Cons x xs)
  then show ?case by (cases i) auto
qed

lemma live_update:
  "i < length xs \<Longrightarrow>
   length (filter (\<lambda>r. r \<noteq> CLOSED) (xs[i := y])) + (if xs ! i \<noteq> CLOSED then 1 else 0) =
   length (filter (\<lambda>r. r \<noteq> CLOSED) xs) + (if y \<noteq> CLOSED then 1 else 0)"
  using filter_length_update [of i xs "\<lambda>r. r \<noteq> CLOSED" y] by simp

lemma timers_inv_showConnectionError:
  "timers_inv s \<Longrightarrow> timers_inv (showConnectionError s)"
  by (simp add: timers_inv_def showConnectionError_def live_sockets_def)

lemma timers_inv_setTimeout_connect:
  "timers_inv s \<Longrightarrow> timers s = [] \<Longrightarrow> live_sockets s = 0 \<Longrightarrow> \<not> isCleaning s \<Longrightarrow>
   timers_inv (setTimeout_connect s)"
  by (simp add: timers_inv_def setTimeout_connect_def live_sockets_def)

lemma timers_inv_connect:
  "timers_inv s \<Longrightarrow> timers s = [] \<Longrightarrow> live_sockets s = 0 \<Longrightarrow> timers_inv (connect b s)"
  by (auto simp: timers_inv_def connect_def Let_def showConnectionError_def
      setTimeout_connect_def live_sockets_def)

lemma timers_inv_single:
  "timers_inv s \<Longrightarrow> t \<in> fst ` set (timers s) \<Longrightarrow>
   live_sockets s = 0 \<and> filter (\<lambda>(i, d). i \<noteq> t) (timers s) = [] \<and>
   reconnectTimeoutRef s = Some t \<and> t \<noteq> 0"
  by (cases "timers s") (auto simp: timers_inv_def)

lemma timers_inv_onopen:
  "timers_inv s \<Longrightarrow> i < length (sockets s) \<Longrightarrow> sockets s ! i = CONNECTING \<Longrightarrow>
   timers_inv (onopen (s\<lparr>sockets := (sockets s)[i := OPEN]\<rparr>))"
  using live_update [of i "sockets s" OPEN]
  by (simp add: timers_inv_def onopen_def live_sockets_def)

lemma timers_inv_onmessage: "timers_inv s \<Longrightarrow> timers_inv (onmessage rt d s)"
  by (simp add: timers_inv_def onmessage_def live_sockets_def split: sum.splits)

lemma timers_inv_onerror: "timers_inv s \<Longrightarrow> timers_inv (onerror s)"
  by (simp add: timers_inv_def onerror_def live_sockets_def)

lemma timers_inv_onclose_idle:
  "timers_inv s \<Longrightarrow> timers s = [] \<Longrightarrow> live_sockets s = 0 \<Longrightarrow> timers_inv (onclose s)"
  by (auto simp: timers_inv_def onclose_def Let_def showConnectionError_def
      setTimeout_connect_def live_sockets_def)

lemma close_last_socket:
  assumes "timers_inv s" "i < length (sockets s)" "sockets s ! i \<noteq> CLOSED"
  shows "timers_inv (s\<lparr>sockets := (sockets s)[i := CLOSED]\<rparr>) \<and>
         timers s = [] \<and>
         live_sockets (s\<lparr>sockets := (sockets s)[i := CLOSED]\<rparr>) = 0"
proof -
  have "live_sockets (s\<lparr>sockets := (sockets s)[i := CLOSED]\<rparr>) + 1 = live_sockets s"
    using live_update [of i "sockets s" CLOSED] assms by (simp add: live_sockets_def)
  moreover have "live_sockets s + length (timers s) \<le> 1"
    using assms by (simp add: timers_inv_def)
  ultimately have "live_sockets (s\<lparr>sockets := (sockets s)[i := CLOSED]\<rparr>) = 0"
    "length (timers s) = 0"
    by linarith+
  then have "live_sockets (s\<lparr>sockets := (sockets s)[i := CLOSED]\<rparr>) = 0" "timers s = []"
    by simp_all
  then show ?thesis using assms(1) by (simp add: timers_inv_def)
qed

lemma timers_inv_onclose:
  "timers_inv s \<Longrightarrow> i < length (sockets s) \<Longrightarrow> sockets s ! i \<noteq> CLOSED \<Longrightarrow>
   timers_inv (onclose (s\<lparr>sockets := (sockets s)[i := CLOSED]\<rparr>))"
  using close_last_socket [of s i] by (simp add: timers_inv_onclose_idle)

lemma timers_inv_cleanup: "timers_inv s \<Longrightarrow> timers_inv (cleanup s)"
proof -
  assume inv: "timers_inv s"
  have t: "\<And>t. reconnectTimeoutRef s = Some t \<Longrightarrow> t \<noteq> 0 \<Longrightarrow> filter (\<lambda>(i, d). i \<noteq> t) (timers s) = []"
    using inv by (cases "timers s") (auto simp: timers_inv_def)
  have e: "reconnectTimeoutRef s = None \<or> reconnectTimeoutRef s = Some 0 \<Longrightarrow> timers s = []"
    using inv by (cases "timers s") (auto simp: timers_inv_def)
  have l: "length (filter (\<lambda>r. r \<noteq> CLOSED) ((sockets s)[i := CLOSING])) = live_sockets s"
    if "i < length (sockets s)" "sockets s ! i = OPEN" for i
    using live_update [of i "sockets s" CLOSING] that by (simp add: live_sockets_def)
  show ?thesis
    using inv t e l
    by (auto simp: timers_inv_def cleanup_def Let_def clearTimeout_def live_sockets_def
        split: option.splits)
qed

lemma timers_inv_clearError: "timers_inv s \<Longrightarrow> timers_inv (clearError s)"
  by (simp add: timers_inv_def clearError_def live_sockets_def)

lemma timers_inv_step: "timers_inv s \<Longrightarrow> timers_inv (step rt e s)"
proof (cases e)
  case (TimerFired t b)
  assume inv: "timers_inv s"
  show ?thesis
  proof (cases "t \<in> fst ` set (timers s)")
    case True
    let ?s = "s\<lparr>timers := filter (\<lambda>(i, d). i \<noteq> t) (timers s)\<rparr>"
    from timers_inv_single [OF inv True]
    have "timers_inv ?s" "timers ?s = []" "live_sockets ?s = 0"
      using inv by (simp_all add: timers_inv_def live_sockets_def)
    then have "timers_inv (connect b ?s)" by (rule timers_inv_connect)
    then show ?thesis using TimerFired True by simp
  next
    case False
    then show ?thesis using TimerFired inv by simp
  qed
qed (simp_all add: timers_inv_onopen timers_inv_onmessage timers_inv_onerror
      timers_inv_onclose timers_inv_cleanup timers_inv_clearError)

lemma timers_inv_run: "timers_inv s \<Longrightarrow> timers_inv (run rt es s)"
  unfolding run_def by (induction es arbitrary: s) (simp_all add: timers_inv_step)

lemma timers_inv_mounted: "timers_inv (mounted token b st)"
proof -
  have "timers_inv (hook_initialState st)"
    by (simp add: timers_inv_def hook_initialState_def live_sockets_def)
  moreover have "timers_inv (connect b (hook_initialState st\<lparr>isConnecting := False, isCleaning := False\<rparr>))"
    by (rule timers_inv_connect) (simp_all add: timers_inv_def hook_initialState_def live_sockets_def)
  ultimately show ?thesis by (simp add: mounted_def useWebSocket_effect_def)
qed

subsection \<open>Histories and their evaluation\<close>

lemma run_append: "run rt (es @ es') s = run rt es' (run rt es s)"
  by (simp add: run_def)

lemma run_Cons: "run rt (e # es) s = run rt es (step rt e s)"
  by (simp add: run_def)

lemmas hook_defs =
  run_def mounted_def useWebSocket_effect_def hook_initialState_def connect_def
  onopen_def onerror_def onclose_def cleanup_def clearError_def clearTimeout_def
  showConnectionError_def setTimeout_connect_def MAX_RETRY_ATTEMPTS_def Let_def

lemma three_closes_state:
  "token \<noteq> [] \<Longrightarrow> run rt three_closes (mounted token False st) =
     \<lparr>wsRef = Some 2, reconnectTimeoutRef = Some 2, retryCountRef = 3,
      hasShownErrorRef = True, connectionError = Some connection_error_message,
      isConnecting = False, isCleaning = False,
      sockets = [CLOSED, CLOSED, CLOSED], timers = [], next_timer_id = 3,
      store = st, notices_surfaced = 1\<rparr>"
  by (simp add: three_closes_def hook_defs)

lemma two_failures_state:
  "token \<noteq> [] \<Longrightarrow> run rt two_failures (mounted token False st) =
     \<lparr>wsRef = Some 1, reconnectTimeoutRef = Some 1, retryCountRef = 4,
      hasShownErrorRef = True, connectionError = Some connection_error_message,
      isConnecting = False, isCleaning = False,
      sockets = [CLOSED, CLOSED], timers = [], next_timer_id = 2,
      store = st, notices_surfaced = 1\<rparr>"
  by (simp add: two_failures_def hook_defs)

subsection \<open>After the cleanup\<close>





lemma connecting_le_live: "connecting_sockets s \<le> live_sockets s"
proof -
  have "length (filter (\<lambda>r. r = CONNECTING) xs) \<le> length (filter (\<lambda>r. r \<noteq> CLOSED) xs)" for xs
    by (induction xs) auto
  then show ?thesis by (simp add: connecting_sockets_def live_sockets_def)
qed

lemma one_socket_within_one_run:
  "connecting_sockets (run rt es (mounted token b st)) \<le> 1 \<and>
   live_sockets (run rt es (mounted token b st)) \<le> 1"
proof -
  have "timers_inv (run rt es (mounted token b st))"
    by (simp add: timers_inv_run timers_inv_mounted)
  then have "live_sockets (run rt es (mounted token b st)) \<le> 1"
    by (simp add: timers_inv_def)
  moreover have "connecting_sockets (run rt es (mounted token b st)) \<le>
      live_sockets (run rt es (mounted token b st))"
    by (rule connecting_le_live)
  ultimately show ?thesis by simp
qed

subsection \<open>While no socket has opened\<close>

lemma retry_inv_connect:
  "retry_inv s \<Longrightarrow> live_sockets s = 0 \<Longrightarrow> \<not> isCleaning s \<Longrightarrow> retry_inv (connect b s)"
  by (auto simp: retry_inv_def connect_def Let_def showConnectionError_def
      setTimeout_connect_def live_sockets_def)

lemma retry_inv_onerror: "retry_inv s \<Longrightarrow> retry_inv (onerror s)"
  by (auto simp: retry_inv_def onerror_def live_sockets_def)

lemma retry_inv_onmessage: "retry_inv s \<Longrightarrow> retry_inv (onmessage rt d s)"
  by (simp add: retry_inv_def onmessage_def live_sockets_def split: sum.splits)

lemma retry_inv_clearError: "retry_inv s \<Longrightarrow> retry_inv (clearError s)"
  by (simp add: retry_inv_def clearError_def live_sockets_def)

lemma retry_inv_cleanup: "retry_inv s \<Longrightarrow> retry_inv (cleanup s)"
  by (simp add: retry_inv_def cleanup_def Let_def clearTimeout_def split: option.splits)

lemma retry_inv_onclose:
  assumes "retry_inv s" "i < length (sockets s)" "sockets s ! i \<noteq> CLOSED"
  shows "retry_inv (onclose (s\<lparr>sockets := (sockets s)[i := CLOSED]\<rparr>))"
proof -
  have l: "live_sockets (s\<lparr>sockets := (sockets s)[i := CLOSED]\<rparr>) + 1 = live_sockets s"
    using live_update [of i "sockets s" CLOSED] assms by (simp add: live_sockets_def)
  show ?thesis
    using assms(1) l
    by (auto simp: retry_inv_def onclose_def Let_def showConnectionError_def
        setTimeout_connect_def live_sockets_def)
qed

lemma retry_inv_step:
  assumes "timers_inv s" "retry_inv s" "\<not> is_open_event e"
  shows "retry_inv (step rt e s)"
proof (cases e)
  case (TransportOpen i)
  then show ?thesis using assms by simp
next
  case (TransportMessage i d)
  then show ?thesis using assms by (simp add: retry_inv_onmessage)
next
  case (TransportError i)
  then show ?thesis using assms by (simp add: retry_inv_onerror)
next
  case (TransportClose i)
  then show ?thesis using assms by (simp add: retry_inv_onclose)
next
  case (TimerFired t b)
  show ?thesis
  proof (cases "t \<in> fst ` set (timers s)")
    case True
    let ?s = "s\<lparr>timers := filter (\<lambda>(i, d). i \<noteq> t) (timers s)\<rparr>"
    have "timers s \<noteq> []" using True by auto
    then have nc: "\<not> isCleaning s" using assms(1) by (auto simp: timers_inv_def)
    from timers_inv_single [OF assms(1) True]
    have "retry_inv ?s" "live_sockets ?s = 0" "\<not> isCleaning ?s"
      using assms(2) nc by (simp_all add: retry_inv_def live_sockets_def)
    then have "retry_inv (connect b ?s)" by (rule retry_inv_connect)
    then show ?thesis using TimerFired True by simp
  next
    case False
    then show ?thesis using TimerFired assms by simp
  qed
next
  case Cleanup
  then show ?thesis using assms by (simp add: retry_inv_cleanup)
next
  case Dismiss
  then show ?thesis using assms by (simp add: retry_inv_clearError)
qed

lemma retry_inv_run:
  "timers_inv s \<Longrightarrow> retry_inv s \<Longrightarrow> \<forall>e \<in> set es. \<not> is_open_event e \<Longrightarrow>
   retry_inv (run rt es s)"
proof (induction es arbitrary: s)
  case Nil
  then show ?case by (simp add: run_def)
next
  case (Cons e es)
  have "timers_inv (step rt e s)" using Cons.prems by (simp add: timers_inv_step)
  moreover have "retry_inv (step rt e s)" using Cons.prems by (simp add: retry_inv_step)
  ultimately show ?case using Cons.IH [of "step rt e s"] Cons.prems by (simp add: run_Cons)
qed

lemma retry_inv_mounted: "retry_inv (mounted token b st)"
  by (auto simp: retry_inv_def hook_defs live_sockets_def)

subsection \<open>After the client has given up\<close>

lemma idle_step:
  assumes "timers s = []" "live_sockets s = 0"
  shows "timers (step rt e s) = [] \<and> live_sockets (step rt e s) = 0 \<and>
         sockets (step rt e s) = sockets s \<and>
         notices_surfaced (step rt e s) = notices_surfaced s \<and>
         hasShownErrorRef (step rt e s) = hasShownErrorRef s \<and>
         retryCountRef (step rt e s) = retryCountRef s"
proof -
  have closed: "sockets s ! i = CLOSED" if "i < length (sockets s)" for i
  proof -
    have "\<forall>r \<in> set (sockets s). r = CLOSED"
      using assms(2) by (simp add: live_sockets_def filter_empty_conv)
    then show ?thesis using that by simp
  qed
  show ?thesis
  proof (cases e)
    case Cleanup
    then show ?thesis using assms closed
      by (auto simp: cleanup_def Let_def clearTimeout_def live_sockets_def split: option.splits)
  next
    case Dismiss
    then show ?thesis using assms by (simp add: clearError_def live_sockets_def)
  qed (use assms closed in auto)
qed

lemma idle_run:
  "timers s = [] \<Longrightarrow> live_sockets s = 0 \<Longrightarrow>
   sockets (run rt es s) = sockets s \<and> timers (run rt es s) = [] \<and>
   notices_surfaced (run rt es s) = notices_surfaced s \<and>
   hasShownErrorRef (run rt es s) = hasShownErrorRef s \<and>
   retryCountRef (run rt es s) = retryCountRef s"
proof (induction es arbitrary: s)
  case Nil
  then show ?case by (simp add: run_def)
next
  case (Cons e es)
  from idle_step [OF Cons.prems, of rt e] Cons.IH [of "step rt e s"]
  show ?case by (simp add: run_Cons)
qed

subsection \<open>The retry decision\<close>

lemma onclose_retry:
  "\<not> isCleaning s \<Longrightarrow> retryCountRef s + 1 < MAX_RETRY_ATTEMPTS \<Longrightarrow>
   timers (onclose s) = timers s @ [(next_timer_id s, 3000)] \<and>
   reconnectTimeoutRef (onclose s) = Some (next_timer_id s) \<and>
   sockets (onclose s) = sockets s \<and>
   hasShownErrorRef (onclose s) = hasShownErrorRef s \<and>
   connectionError (onclose s) = connectionError s \<and>
   notices_surfaced (onclose s) = notices_surfaced s"
  by (simp add: onclose_def Let_def setTimeout_connect_def RETRY_DELAY_def)

lemma onclose_give_up:
  "\<not> isCleaning s \<Longrightarrow> MAX_RETRY_ATTEMPTS \<le> retryCountRef s + 1 \<Longrightarrow>
   timers (onclose s) = timers s \<and> sockets (onclose s) = sockets s \<and>
   hasShownErrorRef (onclose s) \<and>
   (\<not> hasShownErrorRef s \<longrightarrow>
      connectionError (onclose s) = Some connection_error_message \<and>
      notices_surfaced (onclose s) = notices_surfaced s + 1) \<and>
   (hasShownErrorRef s \<longrightarrow>
      connectionError (onclose s) = connectionError s \<and>
      notices_surfaced (onclose s) = notices_surfaced s)"
  by (simp add: onclose_def Let_def showConnectionError_def)

lemma connect_throw_retry:
  "\<not> isConnecting s \<Longrightarrow> \<not> isCleaning s \<Longrightarrow> retryCountRef s + 1 < MAX_RETRY_ATTEMPTS \<Longrightarrow>
   timers (connect True s) = timers s @ [(next_timer_id s, 3000)] \<and>
   sockets (connect True s) = sockets s \<and>
   notices_surfaced (connect True s) = notices_surfaced s"
  by (simp add: connect_def Let_def setTimeout_connect_def RETRY_DELAY_def)

lemma connect_give_up:
  "\<not> isConnecting s \<Longrightarrow> MAX_RETRY_ATTEMPTS \<le> retryCountRef s + (if b then 1 else 0) \<Longrightarrow>
   timers (connect b s) = timers s \<and> sockets (connect b s) = sockets s \<and>
   hasShownErrorRef (connect b s)"
  by (cases b) (auto simp: connect_def Let_def showConnectionError_def)

lemma open_free_bound:
  assumes "\<forall>e \<in> set es. \<not> is_open_event e"
  shows "length (sockets (run rt es (mounted token b st))) \<le> 3 \<and>
         notices_surfaced (run rt es (mounted token b st)) =
           (if hasShownErrorRef (run rt es (mounted token b st)) then 1 else 0)"
proof -
  have "retry_inv (run rt es (mounted token b st))"
    using assms by (simp add: retry_inv_run timers_inv_mounted retry_inv_mounted)
  then show ?thesis by (simp add: retry_inv_def MAX_RETRY_ATTEMPTS_def)
qed

lemma three_closes_final:
  assumes "token \<noteq> []"
  shows "sockets (run rt (three_closes @ es) (mounted token False st)) = [CLOSED, CLOSED, CLOSED] \<and>
         timers (run rt (three_closes @ es) (mounted token False st)) = [] \<and>
         notices_surfaced (run rt (three_closes @ es) (mounted token False st)) = 1 \<and>
         connectionError (run rt three_closes (mounted token False st)) =
           Some connection_error_message"
proof -
  let ?s = "run rt three_closes (mounted token False st)"
  have "timers ?s = []" "live_sockets ?s = 0" "sockets ?s = [CLOSED, CLOSED, CLOSED]"
    "notices_surfaced ?s = 1" "connectionError ?s = Some connection_error_message"
    using assms by (simp_all add: three_closes_state live_sockets_def)
  then show ?thesis using idle_run [of ?s rt es] by (simp add: run_append)
qed

section \<open>Claims about the real-time client\<close>

text \<open>
  The claims below, C9 apart, are about one run of the effect, from a first mount with
  a token (\<open>mounted\<close>) through any list of events; C9 is about the effect running
  again.
\<close>

text \<open>
  C1: the retry decision is a function of the counter. The attempt count is the value
  \<open>retryCountRef\<close> has after the handler counted the failure. In the close handler
  outside a cleanup, and in the \<open>catch\<close> block of \<open>connect\<close>, a count below
  \<open>MAX_RETRY_ATTEMPTS\<close> schedules exactly one call of \<open>connect\<close> after 3000 ms and
  surfaces nothing; a count of \<open>MAX_RETRY_ATTEMPTS\<close> or more schedules nothing,
  constructs nothing, sets the error flag and surfaces the notice unless the flag was
  already set. A call of \<open>connect\<close> that finds the counter at \<open>MAX_RETRY_ATTEMPTS\<close> or
  more constructs no socket either. \<open>MAX_RETRY_ATTEMPTS\<close> is 3. Hence in a history in
  which no socket opens, at most three sockets are ever constructed, and one notice has
  been surfaced if the error flag is set and none otherwise; and after three attempts
  that each ended with a close event the
  three sockets are closed, no timer is pending, exactly one notice has been surfaced,
  and this stays so whatever events follow.
\<close>

theorem retry_policy_bounded:
  "(\<not> isCleaning s \<and> retryCountRef s + 1 < MAX_RETRY_ATTEMPTS \<longrightarrow>
      timers (onclose s) = timers s @ [(next_timer_id s, 3000)] \<and>
      sockets (onclose s) = sockets s \<and>
      notices_surfaced (onclose s) = notices_surfaced s \<and>
      (\<not> isConnecting s \<longrightarrow>
         timers (connect True s) = timers s @ [(next_timer_id s, 3000)] \<and>
         sockets (connect True s) = sockets s \<and>
         notices_surfaced (connect True s) = notices_surfaced s)) \<and>
   (\<not> isCleaning s \<and> MAX_RETRY_ATTEMPTS \<le> retryCountRef s + 1 \<longrightarrow>
      timers (onclose s) = timers s \<and> sockets (onclose s) = sockets s \<and>
      hasShownErrorRef (onclose s) \<and>
      (\<not> hasShownErrorRef s \<longrightarrow>
         connectionError (onclose s) = Some connection_error_message \<and>
         notices_surfaced (onclose s) = notices_surfaced s + 1) \<and>
      (hasShownErrorRef s \<longrightarrow> notices_surfaced (onclose s) = notices_surfaced s) \<and>
      (\<not> isConnecting s \<longrightarrow>
         timers (connect True s) = timers s \<and> sockets (connect True s) = sockets s \<and>
         hasShownErrorRef (connect True s))) \<and>
   (\<not> isConnecting s \<and> MAX_RETRY_ATTEMPTS \<le> retryCountRef s \<longrightarrow>
      timers (connect b s) = timers s \<and> sockets (connect b s) = sockets s \<and>
      hasShownErrorRef (connect b s)) \<and>
   MAX_RETRY_ATTEMPTS = 3 \<and>
   ((\<forall>e \<in> set es. \<not> is_open_event e) \<longrightarrow>
      length (sockets (run rt es (mounted token b st))) \<le> 3 \<and>
      notices_surfaced (run rt es (mounted token b st)) =
        (if hasShownErrorRef (run rt es (mounted token b st)) then 1 else 0)) \<and>
   (token \<noteq> [] \<longrightarrow>
      sockets (run rt (three_closes @ es') (mounted token False st)) = [CLOSED, CLOSED, CLOSED] \<and>
      timers (run rt (three_closes @ es') (mounted token False st)) = [] \<and>
      notices_surfaced (run rt (three_closes @ es') (mounted token False st)) = 1 \<and>
      connectionError (run rt three_closes (mounted token False st)) =
        Some connection_error_message)"
proof (intro conjI impI)
  show "MAX_RETRY_ATTEMPTS = 3" by (simp add: MAX_RETRY_ATTEMPTS_def)
qed (use onclose_retry [of s] onclose_give_up [of s] connect_throw_retry [of s]
      connect_give_up [of s True] connect_give_up [of s b]
      open_free_bound [of es rt token b st] three_closes_final [of token rt es' st]
     in simp_all)

theorem retry_policy_bounded_witness:
  "timers (onclose (mounted ''token'' False store_initialState)) = [(1, 3000)] \<and>
   timers (connect True (run sample_runtime [TransportError 0]
      (mounted ''token'' False store_initialState))) = [(1, 3000)] \<and>
   hasShownErrorRef (onclose (run sample_runtime
      [TransportClose 0, TimerFired 1 False, TransportClose 1, TimerFired 2 False]
      (mounted ''token'' False store_initialState))) \<and>
   sockets (connect False (run sample_runtime three_closes
      (mounted ''token'' False store_initialState))) = [CLOSED, CLOSED, CLOSED] \<and>
   length (sockets (run sample_runtime two_failures (mounted ''token'' False store_initialState)))
     \<le> 3 \<and>
   notices_surfaced (run sample_runtime (three_closes @ [Dismiss, TimerFired 2 False])
      (mounted ''token'' False store_initialState)) = 1"
proof -
  let ?m = "mounted ''token'' False store_initialState"
  let ?e = "run sample_runtime [TransportError 0] ?m"
  let ?s = "run sample_runtime
      [TransportClose 0, TimerFired 1 False, TransportClose 1, TimerFired 2 False] ?m"
  let ?f = "run sample_runtime three_closes ?m"
  have m: "\<not> isCleaning ?m \<and> retryCountRef ?m + 1 < MAX_RETRY_ATTEMPTS"
    "timers ?m = []" "next_timer_id ?m = 1"
    by (simp_all add: hook_defs)
  have e: "\<not> isCleaning ?e \<and> retryCountRef ?e + 1 < MAX_RETRY_ATTEMPTS" "\<not> isConnecting ?e"
    "timers ?e = []" "next_timer_id ?e = 1"
    by (simp_all add: hook_defs)
  have s: "\<not> isCleaning ?s \<and> MAX_RETRY_ATTEMPTS \<le> retryCountRef ?s + 1"
    by (simp add: hook_defs)
  have f: "\<not> isConnecting ?f \<and> MAX_RETRY_ATTEMPTS \<le> retryCountRef ?f"
    "sockets ?f = [CLOSED, CLOSED, CLOSED]"
    by (simp_all add: three_closes_state MAX_RETRY_ATTEMPTS_def)
  have o: "\<forall>e \<in> set two_failures. \<not> is_open_event e"
    by (simp add: two_failures_def)
  have t: "''token'' \<noteq> []" by simp
  note at_mount = retry_policy_bounded [where s = ?m and b = False and rt = sample_runtime
      and es = two_failures and token = "''token''" and st = store_initialState
      and es' = "[Dismiss, TimerFired 2 False]"]
  note at_error = retry_policy_bounded [where s = ?e and b = False and rt = sample_runtime
      and es = two_failures and token = "''token''" and st = store_initialState
      and es' = "[Dismiss, TimerFired 2 False]"]
  note at_third = retry_policy_bounded [where s = ?s and b = False and rt = sample_runtime
      and es = two_failures and token = "''token''" and st = store_initialState
      and es' = "[Dismiss, TimerFired 2 False]"]
  note at_failed = retry_policy_bounded [where s = ?f and b = False and rt = sample_runtime
      and es = two_failures and token = "''token''" and st = store_initialState
      and es' = "[Dismiss, TimerFired 2 False]"]
  from at_mount m have "timers (onclose ?m) = [(1, 3000)]" by simp
  moreover from at_error e have "timers (connect True ?e) = [(1, 3000)]" by simp
  moreover from at_third s have "hasShownErrorRef (onclose ?s)" by blast
  moreover from at_failed f have "sockets (connect False ?f) = [CLOSED, CLOSED, CLOSED]" by simp
  moreover from at_mount o t
  have "length (sockets (run sample_runtime two_failures ?m)) \<le> 3"
    "notices_surfaced (run sample_runtime (three_closes @ [Dismiss, TimerFired 2 False]) ?m) = 1"
    by blast+
  ultimately show ?thesis by blast
qed

text \<open>
  C2, evaluated on the code: the token is present and each of the first two attempts
  fails with an error event followed by a close event. Both handlers increment
  \<open>retryCountRef\<close>, so the counter is 2 after the first failed attempt and 4 after the
  second; the second close finds the budget used up, surfaces the notice and schedules
  no retry, so there is no third socket that could open: a timer event and an open
  event for it change nothing. (When the two attempts end with a close event alone, the
  counter reads 1, 2 and, after the third attempt opens, 0, and no notice is surfaced.)
\<close>

theorem error_and_close_count_twice:
  "retryCountRef (run sample_runtime [TransportError 0, TransportClose 0]
      (mounted ''token'' False store_initialState)) = 2 \<and>
   retryCountRef (run sample_runtime two_failures
      (mounted ''token'' False store_initialState)) = 4 \<and>
   connectionError (run sample_runtime two_failures
      (mounted ''token'' False store_initialState)) = Some connection_error_message \<and>
   notices_surfaced (run sample_runtime two_failures
      (mounted ''token'' False store_initialState)) = 1 \<and>
   timers (run sample_runtime two_failures (mounted ''token'' False store_initialState)) = [] \<and>
   sockets (run sample_runtime two_failures (mounted ''token'' False store_initialState))
     = [CLOSED, CLOSED] \<and>
   run sample_runtime (two_failures @ [TimerFired 2 False, TransportOpen 2])
      (mounted ''token'' False store_initialState)
     = run sample_runtime two_failures (mounted ''token'' False store_initialState) \<and>
   retryCountRef (run sample_runtime [TransportClose 0]
      (mounted ''token'' False store_initialState)) = 1 \<and>
   retryCountRef (run sample_runtime [TransportClose 0, TimerFired 1 False, TransportClose 1]
      (mounted ''token'' False store_initialState)) = 2 \<and>
   retryCountRef (run sample_runtime [TransportClose 0, TimerFired 1 False, TransportClose 1,
      TimerFired 2 False, TransportOpen 2] (mounted ''token'' False store_initialState)) = 0 \<and>
   notices_surfaced (run sample_runtime [TransportClose 0, TimerFired 1 False, TransportClose 1,
      TimerFired 2 False, TransportOpen 2] (mounted ''token'' False store_initialState)) = 0"
  by (simp add: two_failures_def hook_defs)



text \<open>
  C7, as stated: dismissing clears the error flag. It does not: \<open>clearError\<close> only
  resets \<open>connectionError\<close>. After three failed attempts the flag \<open>hasShownErrorRef\<close>
  is set, and it is still set after the dismissal.
\<close>

theorem dismiss_keeps_error_flag:
  "hasShownErrorRef (run sample_runtime three_closes
      (mounted ''token'' False store_initialState)) \<and>
   hasShownErrorRef (clearError (run sample_runtime three_closes
      (mounted ''token'' False store_initialState)))"
  by (simp add: three_closes_state clearError_def)

text \<open>
  C7, amended: dismissing clears the surfaced notice and leaves everything else as it
  was: the error flag, the retry counter, the socket handle and the sockets, the timer
  and the store.
\<close>

theorem dismiss_clears_notice_only:
  "step rt Dismiss s = clearError s \<and>
   connectionError (clearError s) = None \<and>
   hasShownErrorRef (clearError s) = hasShownErrorRef s \<and>
   retryCountRef (clearError s) = retryCountRef s \<and>
   wsRef (clearError s) = wsRef s \<and>
   sockets (clearError s) = sockets s \<and>
   reconnectTimeoutRef (clearError s) = reconnectTimeoutRef s \<and>
   timers (clearError s) = timers s \<and>
   isConnecting (clearError s) = isConnecting s \<and>
   isCleaning (clearError s) = isCleaning s \<and>
   store (clearError s) = store s"
  by (simp add: clearError_def)

theorem dismiss_clears_notice_only_witness:
  "connectionError (run sample_runtime three_closes
      (mounted ''token'' False store_initialState)) = Some connection_error_message \<and>
   connectionError (clearError (run sample_runtime three_closes
      (mounted ''token'' False store_initialState))) = None \<and>
   retryCountRef (clearError (run sample_runtime three_closes
      (mounted ''token'' False store_initialState))) = 3"
  using dismiss_clears_notice_only [where rt = sample_runtime
      and s = "run sample_runtime three_closes (mounted ''token'' False store_initialState)"]
  by (simp add: three_closes_state)

text \<open>
  C8: for a frame on which \<open>JSON.parse\<close> throws \<open>SyntaxError\<close>, the exception ends in
  the \<open>catch\<close> of the message handler: the handler returns, and the whole state after
  it, with the store, the connection, the retry counter, the error flag and the notice,
  is the state before it.
\<close>

theorem non_json_frame_discarded:
  assumes "JSON_parse rt event_data = Inl SyntaxError"
  shows "onmessage_try rt event_data (store s) = Inl SyntaxError \<and>
         onmessage rt event_data s = s \<and>
         step rt (TransportMessage i event_data) s = s"
  using assms by (simp add: onmessage_try_def onmessage_def)

theorem non_json_frame_discarded_witness:
  "JSON_parse sample_runtime ''not json'' = Inl SyntaxError \<and>
   sockets (run sample_runtime [TransportOpen 0] (mounted ''token'' False store_initialState))
     = [OPEN] \<and>
   step sample_runtime (TransportMessage 0 ''not json'')
     (run sample_runtime [TransportOpen 0] (mounted ''token'' False store_initialState))
   = run sample_runtime [TransportOpen 0] (mounted ''token'' False store_initialState)"
proof -
  have p: "JSON_parse sample_runtime ''not json'' = Inl SyntaxError"
    by (simp add: sample_runtime_def)
  have o: "sockets (run sample_runtime [TransportOpen 0]
      (mounted ''token'' False store_initialState)) = [OPEN]"
    by (simp add: hook_defs)
  from non_json_frame_discarded [OF p] p o show ?thesis by blast
qed

text \<open>
  C9, evaluated on the code: the component mounts with a token, which constructs
  socket 0, and before that socket opens or closes the token changes and the effect
  runs again. The cleanup of the first run closes a socket only when it is open, so
  socket 0 stays connecting; the second run has its own \<open>isConnecting\<close>, which is
  unset although the first attempt has not resolved, so \<open>connect\<close> constructs socket 1.
  Two attempts are in flight at once, and the first run's \<open>isConnecting\<close> is still set.
  Both sockets can then open, and the unmount closes only socket 1, the one \<open>wsRef\<close>
  holds. (Within one run of the effect at most one socket has not closed, as
  \<open>one_socket_within_one_run\<close> shows; there no call of \<open>connect\<close> ever meets the guard.)
\<close>

theorem rerun_during_handshake_second_socket:
  "hook (component_run sample_runtime [EffectRuns (Some ''token'') False]
      (component_initialState store_initialState))
     = mounted ''token'' False store_initialState \<and>
   sockets (hook (component_run sample_runtime [EffectRuns (Some ''token'') False]
      (component_initialState store_initialState))) = [CONNECTING] \<and>
   sockets (hook (component_run sample_runtime
      [EffectRuns (Some ''token'') False, EffectRuns (Some ''token2'') False]
      (component_initialState store_initialState))) = [CONNECTING, CONNECTING] \<and>
   connecting_sockets (hook (component_run sample_runtime
      [EffectRuns (Some ''token'') False, EffectRuns (Some ''token2'') False]
      (component_initialState store_initialState))) = 2 \<and>
   closures (component_run sample_runtime
      [EffectRuns (Some ''token'') False, EffectRuns (Some ''token2'') False]
      (component_initialState store_initialState)) = [(True, True), (True, False)] \<and>
   socket_owner (component_run sample_runtime
      [EffectRuns (Some ''token'') False, EffectRuns (Some ''token2'') False]
      (component_initialState store_initialState)) = [0, 1] \<and>
   sockets (hook (component_run sample_runtime
      [EffectRuns (Some ''token'') False, EffectRuns (Some ''token2'') False,
       Happens (TransportOpen 0), Happens (TransportOpen 1)]
      (component_initialState store_initialState))) = [OPEN, OPEN] \<and>
   sockets (hook (component_run sample_runtime
      [EffectRuns (Some ''token'') False, EffectRuns (Some ''token2'') False,
       Happens (TransportOpen 0), Happens (TransportOpen 1), Happens Cleanup]
      (component_initialState store_initialState))) = [OPEN, CLOSING]"
  by (simp add: component_run_def component_initialState_def in_closure_def run_cleanup_def
      run_effect_def connecting_sockets_def hook_defs)

end
